theory Spec2Isabelle
  imports Main
begin

section \<open>Route declarations (serverlessPlugin.ts, as index.ts reads them)\<close>

text \<open>
  A JavaScript object is modelled by the list of its entries in \<^verbatim>\<open>Object.entries\<close>
  order where the code iterates over it, and by a map where the code only stores into it.
  The map holds the own entries of the object, which are what \<^verbatim>\<open>Object.entries\<close> and
  \<^verbatim>\<open>JSON.stringify\<close> see. On an object written \<^verbatim>\<open>{}\<close> the assignment
  \<^verbatim>\<open>o[k] = v\<close> stores the entry for every key but \<^verbatim>\<open>__proto__\<close>: there it runs the
  setter inherited from \<^verbatim>\<open>Object.prototype\<close>, which makes the object \<^verbatim>\<open>v\<close> the
  prototype of \<^verbatim>\<open>o\<close> and stores no entry.
  An optional property is an \<open>option\<close>. Strings are lists of characters.
\<close>

text \<open>The object under \<^verbatim>\<open>parameters\<close>; \<^verbatim>\<open>parameters.path\<close> maps a name to its required flag.\<close>

record path_parameters_decl =
  parameters_path :: "(string \<times> bool) list option"

text \<open>One entry of \<^verbatim>\<open>responses\<close>: a plain string, or an object with optional
  \<^verbatim>\<open>description\<close> and \<^verbatim>\<open>bodyType\<close>.\<close>

datatype response_details =
  ResponseString string
| ResponseObject "string option" "string option"

type_synonym HttpResponses = "(string \<times> response_details) list"

text \<open>\<^verbatim>\<open>EitherHttpEvent\<close>: the object form of an \<^verbatim>\<open>http\<close> or \<^verbatim>\<open>httpApi\<close> trigger.\<close>

record http_event =
  http_path :: string
  http_method :: string
  http_description :: "string option"
  http_swaggerTags :: "string list option"
  http_bodyType :: "string option"
  http_parameters :: "path_parameters_decl option"
  http_responses :: "HttpResponses option"

section \<open>Swagger objects (swagger.ts)\<close>

record Parameter =
  param_in :: string
  param_name :: string
  param_description :: "string option"
  param_required :: bool
  param_schema_ref :: "string option"
  param_type :: "string option"

record Response =
  response_description :: string
  response_schema_ref :: "string option"

section \<open>The placeholder scan of httpEventToParameters\<close>

text \<open>
  \<^verbatim>\<open>httpEvent.path.match(/[^{\}]+(?=})/g)\<close>. The character class \<^verbatim>\<open>[^{\}]\<close> is every
  character but the two braces. At a start position the greedy \<^verbatim>\<open>+\<close> takes the whole run
  of such characters; the lookahead wants a closing brace next. A shorter run is followed
  by a character of the class, so backtracking never succeeds where the whole run fails.
\<close>

definition notBrace :: "char \<Rightarrow> bool" where
  "notBrace c = (c \<noteq> CHR ''{'' \<and> c \<noteq> CHR ''}'')"

definition matchHere :: "string \<Rightarrow> string option" where
  "matchHere s =
     (if takeWhile notBrace s \<noteq> [] \<and> take 1 (dropWhile notBrace s) = ''}''
      then Some (takeWhile notBrace s) else None)"

text \<open>
  The global flag: the search restarts where the previous match ended (the lookahead
  consumes nothing), and moves one character on where no match starts.
\<close>

function matchAll :: "string \<Rightarrow> string list" where
  "matchAll s =
     (if s = [] then []
      else case matchHere s of
             Some run \<Rightarrow> run # matchAll (drop (length run) s)
           | None \<Rightarrow> matchAll (tl s))"
  by pat_completeness auto
termination
  by (relation "measure length") (auto simp: matchHere_def split: if_splits)

declare matchAll.simps [simp del]

text \<open>\<^verbatim>\<open>String.prototype.match\<close> returns \<^verbatim>\<open>null\<close> when nothing matches.\<close>

definition match_placeholders :: "string \<Rightarrow> string list option" where
  "match_placeholders s = (case matchAll s of [] \<Rightarrow> None | m # ms \<Rightarrow> Some (m # ms))"

text \<open>\<^verbatim>\<open>x || []\<close> on the result of a match.\<close>

definition orEmpty :: "string list option \<Rightarrow> string list" where
  "orEmpty r = (case r of None \<Rightarrow> [] | Some ms \<Rightarrow> ms)"

section \<open>httpEventToParameters\<close>

text \<open>Modelled from the spec: \<^verbatim>\<open>removeStringFromArray\<close> of helperFunctions.ts, which is
  not among the sources. The specification says of each declared name: remove that name
  from the set extracted from the template.\<close>

definition removeStringFromArray :: "string list \<Rightarrow> string \<Rightarrow> string list" where
  "removeStringFromArray array v = filter (\<lambda>s. s \<noteq> v) array"

definition bodyParameter :: "string \<Rightarrow> Parameter" where
  "bodyParameter bodyType =
     \<lparr> param_in = ''body'', param_name = ''body'',
       param_description = Some ''Body required in the request'',
       param_required = True,
       param_schema_ref = Some (''#/definitions/'' @ bodyType),
       param_type = None \<rparr>"

definition pathParameter :: "string \<Rightarrow> bool \<Rightarrow> Parameter" where
  "pathParameter param required =
     \<lparr> param_in = ''path'', param_name = param, param_description = None,
       param_required = required, param_schema_ref = None,
       param_type = Some ''string'' \<rparr>"

text \<open>\<^verbatim>\<open>(httpEvent as FullHttpEvent['http']).parameters?.path\<close>\<close>

definition explicit_path :: "http_event \<Rightarrow> (string \<times> bool) list option" where
  "explicit_path httpEvent =
     (case http_parameters httpEvent of None \<Rightarrow> None | Some ps \<Rightarrow> parameters_path ps)"

text \<open>The loop over \<^verbatim>\<open>Object.entries(rawPathParams)\<close>: it pushes onto \<^verbatim>\<open>parameters\<close>
  and shrinks \<^verbatim>\<open>pathParameters\<close>.\<close>

fun pushExplicit ::
  "(string \<times> bool) list \<Rightarrow> Parameter list \<times> string list \<Rightarrow> Parameter list \<times> string list" where
  "pushExplicit [] acc = acc"
| "pushExplicit ((param, required) # rest) (parameters, pathParameters) =
     pushExplicit rest
       (parameters @ [pathParameter param required],
        removeStringFromArray pathParameters param)"

text \<open>The three \<^verbatim>\<open>if\<close> statements in turn. A string is truthy when it is not empty; an
  object (the \<^verbatim>\<open>parameters.path\<close> map, even an empty one) and a non-empty array are
  truthy, \<^verbatim>\<open>undefined\<close> and \<^verbatim>\<open>null\<close> are not.\<close>

definition pushBody :: "http_event \<Rightarrow> Parameter list" where
  "pushBody httpEvent =
     (case http_bodyType httpEvent of
        None \<Rightarrow> []
      | Some bodyType \<Rightarrow> if bodyType = [] then [] else [bodyParameter bodyType])"

definition pushTemplate :: "http_event \<Rightarrow> Parameter list \<Rightarrow> Parameter list" where
  "pushTemplate httpEvent parameters =
     (if explicit_path httpEvent = None \<and> match_placeholders (http_path httpEvent) \<noteq> None
      then parameters @
           map (\<lambda>param. pathParameter param True)
             (orEmpty (match_placeholders (http_path httpEvent)))
      else parameters)"

definition pushDeclared :: "http_event \<Rightarrow> Parameter list \<Rightarrow> Parameter list" where
  "pushDeclared httpEvent parameters =
     (case explicit_path httpEvent of
        None \<Rightarrow> parameters
      | Some rawPathParams \<Rightarrow>
          (case pushExplicit rawPathParams
                  (parameters, orEmpty (match_placeholders (http_path httpEvent))) of
             (pushed, pathParameters) \<Rightarrow>
               pushed @ map (\<lambda>param. pathParameter param True) pathParameters))"

definition httpEventToParameters :: "http_event \<Rightarrow> Parameter list" where
  "httpEventToParameters httpEvent =
     pushDeclared httpEvent (pushTemplate httpEvent (pushBody httpEvent))"

section \<open>formatResponses\<close>

text \<open>The body of the callback over \<^verbatim>\<open>Object.entries(responses)\<close>, for one entry.
  \<^verbatim>\<open>responseDetails.description || `${statusCode} response`\<close> takes the default for a
  missing and for an empty description; \<^verbatim>\<open>if (responseDetails.bodyType)\<close> skips a
  missing and an empty name.\<close>

definition formatResponse :: "string \<Rightarrow> response_details \<Rightarrow> Response" where
  "formatResponse statusCode responseDetails =
     (case responseDetails of
        ResponseString s \<Rightarrow> \<lparr> response_description = s, response_schema_ref = None \<rparr>
      | ResponseObject description bodyType \<Rightarrow>
          \<lparr> response_description =
              (case description of
                 None \<Rightarrow> statusCode @ '' response''
               | Some d \<Rightarrow> if d = [] then statusCode @ '' response'' else d),
            response_schema_ref =
              (case bodyType of
                 None \<Rightarrow> None
               | Some b \<Rightarrow> if b = [] then None else Some (''#/definitions/'' @ b)) \<rparr>)"

text \<open>\<^verbatim>\<open>formatted[statusCode] = ...\<close>, on the object built so far: \<^verbatim>\<open>formatted\<close> is
  written \<^verbatim>\<open>{}\<close> and what is assigned is an object, so the key \<^verbatim>\<open>__proto__\<close> stores
  no entry.\<close>

fun storeResponse ::
  "(string \<rightharpoonup> Response) \<Rightarrow> string \<times> response_details \<Rightarrow> (string \<rightharpoonup> Response)" where
  "storeResponse formatted (statusCode, responseDetails) =
     (if statusCode = ''__proto__'' then formatted
      else formatted(statusCode \<mapsto> formatResponse statusCode responseDetails))"

definition formatResponses :: "HttpResponses option \<Rightarrow> (string \<rightharpoonup> Response)" where
  "formatResponses responses =
     (case responses of
        None \<Rightarrow>
          [''200'' \<mapsto> \<lparr> response_description = ''200 response'', response_schema_ref = None \<rparr>]
      | Some entries \<Rightarrow> foldl storeResponse Map.empty entries)"

section \<open>generatePaths\<close>

text \<open>\<^verbatim>\<open>httpEventToSecurity\<close> returns \<^verbatim>\<open>undefined\<close>.\<close>

definition httpEventToSecurity :: "http_event \<Rightarrow> unit option" where
  "httpEventToSecurity http = None"

record Operation =
  op_summary :: string
  op_description :: string
  op_tags :: "string list option"
  op_operationId :: string
  op_consumes :: "string list"
  op_produces :: "string list"
  op_parameters :: "Parameter list"
  op_responses :: "string \<rightharpoonup> Response"
  op_security :: "unit option"

type_synonym Paths = "string \<rightharpoonup> (string \<rightharpoonup> Operation)"

text \<open>A trigger is the shorthand string or the object form; an event carries it under
  \<^verbatim>\<open>http\<close> or under \<^verbatim>\<open>httpApi\<close>, or is an event of another kind.\<close>

datatype trigger = Shorthand string | Full http_event

datatype event = HttpEvent trigger | HttpApiEvent trigger | OtherEvent

record function_config =
  config_events :: "event list option"

type_synonym function_map = "(string \<times> function_config) list"

text \<open>\<^verbatim>\<open>(event as HttpEvent).http || (event as HttpApiEvent).httpApi\<close>: an object and a
  non-empty string are truthy.\<close>

fun truthy_trigger :: "trigger \<Rightarrow> bool" where
  "truthy_trigger (Shorthand s) = (s \<noteq> [])"
| "truthy_trigger (Full http) = True"

fun http_or_httpApi :: "event \<Rightarrow> trigger option" where
  "http_or_httpApi (HttpEvent t) = (if truthy_trigger t then Some t else None)"
| "http_or_httpApi (HttpApiEvent t) = (if truthy_trigger t then Some t else None)"
| "http_or_httpApi OtherEvent = None"

text \<open>\<^verbatim>\<open>if (path[0] !== '/') path = `/${path}`\<close>; the first character of the empty string
  is \<^verbatim>\<open>undefined\<close>.\<close>

definition normalizePath :: "string \<Rightarrow> string" where
  "normalizePath path = (if take 1 path \<noteq> ''/'' then ''/'' @ path else path)"

definition operationObject :: "string \<Rightarrow> http_event \<Rightarrow> Operation" where
  "operationObject functionName http =
     \<lparr> op_summary = functionName,
       op_description = (case http_description http of None \<Rightarrow> [] | Some d \<Rightarrow> d),
       op_tags = http_swaggerTags http,
       op_operationId = functionName,
       op_consumes = [''application/json''],
       op_produces = [''application/json''],
       op_parameters = httpEventToParameters http,
       op_responses = formatResponses (http_responses http),
       op_security = httpEventToSecurity http \<rparr>"

text \<open>The callback of the inner \<^verbatim>\<open>map\<close>, on the paths built so far. The key \<open>path\<close>
  starts with a slash, so \<^verbatim>\<open>paths[path]\<close> reads and writes an own entry of
  \<^verbatim>\<open>paths\<close>. The object at a path is written \<^verbatim>\<open>{}\<close> and what is assigned under
  \<^verbatim>\<open>http.method\<close> is an object, so the method \<^verbatim>\<open>__proto__\<close> stores no entry there.\<close>

definition addOperation :: "string \<Rightarrow> Paths \<Rightarrow> event \<Rightarrow> Paths" where
  "addOperation functionName paths event =
     (case http_or_httpApi event of
        None \<Rightarrow> paths
      | Some (Shorthand s) \<Rightarrow> paths
      | Some (Full http) \<Rightarrow>
          (let path = normalizePath (http_path http);
               atPath = (case paths path of None \<Rightarrow> Map.empty | Some operations \<Rightarrow> operations)
           in paths(path \<mapsto>
                (if http_method http = ''__proto__'' then atPath
                 else atPath(http_method http \<mapsto> operationObject functionName http)))))"

text \<open>The callback of the outer \<^verbatim>\<open>map\<close>: \<^verbatim>\<open>config.events || []\<close>, the filter, the inner
  \<^verbatim>\<open>map\<close>.\<close>

definition addFunction :: "Paths \<Rightarrow> string \<times> function_config \<Rightarrow> Paths" where
  "addFunction paths entry =
     (case entry of (functionName, config) \<Rightarrow>
        foldl (addOperation functionName) paths
          (filter (\<lambda>event. http_or_httpApi event \<noteq> None)
             (case config_events config of None \<Rightarrow> [] | Some events \<Rightarrow> events)))"

section \<open>The plugin object\<close>

record Info =
  info_title :: string
  info_version :: string

record 'd Swagger =
  swagger_swagger :: string
  swagger_info :: Info
  swagger_schemes :: "string list"
  swagger_paths :: Paths
  swagger_definitions :: "(string \<rightharpoonup> 'd) option"

text \<open>The fields of \<^verbatim>\<open>this\<close> that the hooks read and write: the service's name, its
  \<^verbatim>\<open>custom?.swagger?.typefiles\<close>, its functions, the document, and the lines logged.\<close>

record 'd plugin =
  service_service :: string
  service_typefiles :: "string list option"
  service_functions :: function_map
  this_swagger :: "'d Swagger"
  logged :: "string list"

definition initial_swagger :: "'d Swagger" where
  "initial_swagger =
     \<lparr> swagger_swagger = ''2.0'',
       swagger_info = \<lparr> info_title = [], info_version = ''1'' \<rparr>,
       swagger_schemes = [''https''],
       swagger_paths = Map.empty,
       swagger_definitions = None \<rparr>"

definition beforeGather :: "'d plugin \<Rightarrow> 'd plugin" where
  "beforeGather this =
     this\<lparr> logged := logged this @ [''Creating your Swagger File now''],
           this_swagger := (this_swagger this)
             \<lparr> swagger_info := (swagger_info (this_swagger this))
                  \<lparr> info_title := service_service this \<rparr> \<rparr> \<rparr>"

definition generatePaths :: "'d plugin \<Rightarrow> 'd plugin" where
  "generatePaths this =
     (let functions = service_functions this;
          paths = foldl addFunction Map.empty functions
      in this\<lparr> this_swagger := (this_swagger this)\<lparr> swagger_paths := paths \<rparr> \<rparr>)"

section \<open>gatherTypes\<close>

text \<open>
  What one callback of \<^verbatim>\<open>typesFile.map\<close> comes to: \<^verbatim>\<open>readFileSync\<close>, \<^verbatim>\<open>convert\<close>,
  \<^verbatim>\<open>JSON.parse\<close> or the read of \<^verbatim>\<open>.components.schemas\<close> throws, or the callback reaches
  its last line with the schemas of the file. The file system and the converter are
  outside the program: they are the parameter \<open>convertFile\<close> below.
\<close>

datatype 'd conversion = Failure | Schemas "string \<rightharpoonup> 'd"

text \<open>
  \<^verbatim>\<open>await Promise.all(...)\<close> over the callbacks, taken in the order in which they reach
  \<^verbatim>\<open>combinedDefinitions = { ...combinedDefinitions, ...definition }\<close>. The callbacks
  are started in the order of the list, and each merges when its conversion is done; the
  list below is in the order of the merges, which is the order of the sources for a
  converter that finishes its calls in the order they were made. The result is \<open>None\<close>
  when the promise is rejected: a callback has thrown. What the other callbacks still
  merge after that goes to a local variable nobody reads. The \<^verbatim>\<open>includes anyOf\<close> line a
  callback may print changes nothing and is not among the lines logged.
\<close>

fun mergeDefinitions :: "'d conversion list \<Rightarrow> (string \<rightharpoonup> 'd) \<Rightarrow> (string \<rightharpoonup> 'd) option" where
  "mergeDefinitions [] combinedDefinitions = Some combinedDefinitions"
| "mergeDefinitions (Failure # rest) combinedDefinitions = None"
| "mergeDefinitions (Schemas definition # rest) combinedDefinitions =
     mergeDefinitions rest (combinedDefinitions ++ definition)"

text \<open>\<^verbatim>\<open>typeLocationOverride || ['./src/types/api-types.d.ts']\<close>: an array, even an empty
  one, is truthy.\<close>

definition typesFile :: "'d plugin \<Rightarrow> string list" where
  "typesFile this =
     (case service_typefiles this of
        None \<Rightarrow> [''./src/types/api-types.d.ts'']
      | Some override \<Rightarrow> override)"

definition gatherTypes :: "(string \<Rightarrow> 'd conversion) \<Rightarrow> 'd plugin \<Rightarrow> 'd plugin" where
  "gatherTypes convertFile this =
     (let this1 = this\<lparr> logged := logged this @
                   [''this is where we gather the types into a single file''] \<rparr>
      in case mergeDefinitions (map convertFile (typesFile this1)) Map.empty of
           Some combinedDefinitions \<Rightarrow>
             this1\<lparr> this_swagger := (this_swagger this1)
                      \<lparr> swagger_definitions := Some combinedDefinitions \<rparr> \<rparr>
         | None \<Rightarrow> this1\<lparr> logged := logged this1 @ [''error getting types''] \<rparr>)"

section \<open>Notions the properties are stated with\<close>

text \<open>The kind of a parameter is its \<^verbatim>\<open>in\<close> field.\<close>

definition isPath :: "Parameter \<Rightarrow> bool" where
  "isPath p = (param_in p = ''path'')"

definition isBody :: "Parameter \<Rightarrow> bool" where
  "isBody p = (param_in p = ''body'')"

text \<open>
  A path template as the specification describes it: literal text and \<^verbatim>\<open>{name}\<close>
  placeholders in turn. It is well formed when no literal and no name holds a brace and
  no name is empty. \<open>render\<close> is the string the route declares.
\<close>

datatype segment = Literal string | Placeholder string

fun render :: "segment list \<Rightarrow> string" where
  "render [] = []"
| "render (Literal t # segs) = t @ render segs"
| "render (Placeholder n # segs) = ''{'' @ n @ ''}'' @ render segs"

fun placeholder_names :: "segment list \<Rightarrow> string list" where
  "placeholder_names [] = []"
| "placeholder_names (Literal t # segs) = placeholder_names segs"
| "placeholder_names (Placeholder n # segs) = n # placeholder_names segs"

fun well_formed :: "segment list \<Rightarrow> bool" where
  "well_formed [] = True"
| "well_formed (Literal t # segs) = (list_all notBrace t \<and> well_formed segs)"
| "well_formed (Placeholder n # segs) =
     (n \<noteq> [] \<and> list_all notBrace n \<and> well_formed segs)"

text \<open>
  The routes of a function map in the order \<open>generatePaths\<close> meets them: every trigger in
  object form, with the name of its function. \<open>lookupOperation\<close> is
  \<^verbatim>\<open>paths[path][method]\<close>, and \<open>putRoute\<close> is what the callback stores for one route.
\<close>

fun fullTriggers :: "event \<Rightarrow> http_event list" where
  "fullTriggers (HttpEvent (Full http)) = [http]"
| "fullTriggers (HttpApiEvent (Full http)) = [http]"
| "fullTriggers (HttpEvent (Shorthand s)) = []"
| "fullTriggers (HttpApiEvent (Shorthand s)) = []"
| "fullTriggers OtherEvent = []"

definition routes :: "function_map \<Rightarrow> (string \<times> http_event) list" where
  "routes functions =
     concat (map (\<lambda>(functionName, config).
                    map (Pair functionName)
                      (concat (map fullTriggers
                         (case config_events config of None \<Rightarrow> [] | Some events \<Rightarrow> events))))
               functions)"

definition lookupOperation :: "Paths \<Rightarrow> string \<Rightarrow> string \<Rightarrow> Operation option" where
  "lookupOperation paths path m =
     (case paths path of None \<Rightarrow> None | Some operations \<Rightarrow> operations m)"

fun putRoute :: "Paths \<Rightarrow> string \<times> http_event \<Rightarrow> Paths" where
  "putRoute paths (functionName, http) = addOperation functionName paths (HttpEvent (Full http))"

text \<open>A converter for three files, for the examples: the first cannot be converted, the
  other two both define \<^verbatim>\<open>Widget\<close>.\<close>

definition example_convert :: "string \<Rightarrow> string conversion" where
  "example_convert filepath =
     (if filepath = ''broken.d.ts'' then Failure
      else if filepath = ''first.d.ts''
        then Schemas [''Widget'' \<mapsto> ''first'', ''Gadget'' \<mapsto> ''gadget'']
      else Schemas [''Widget'' \<mapsto> ''second''])"

section \<open>The placeholder scan\<close>

lemma matchAll_Nil: "matchAll [] = []"
  by (simp add: matchAll.simps)

lemma matchAll_brace: "\<not> notBrace c \<Longrightarrow> matchAll (c # cs) = matchAll cs"
  by (subst matchAll.simps) (simp add: matchHere_def)

lemma matchAll_closed:
  assumes "list_all notBrace n" "n \<noteq> []"
  shows "matchAll (n @ CHR ''}'' # rest) = n # matchAll rest"
proof -
  have nb: "\<not> notBrace (CHR ''}'')" by (simp add: notBrace_def)
  have tw: "takeWhile notBrace (n @ CHR ''}'' # rest) = n"
    using assms(1) nb by (simp add: list_all_iff takeWhile_append2)
  have dw: "dropWhile notBrace (n @ CHR ''}'' # rest) = CHR ''}'' # rest"
    using assms(1) nb by (simp add: list_all_iff dropWhile_append2)
  have "matchHere (n @ CHR ''}'' # rest) = Some n"
    using assms(2) by (simp add: matchHere_def tw dw)
  then have "matchAll (n @ CHR ''}'' # rest) = n # matchAll (CHR ''}'' # rest)"
    by (subst matchAll.simps) simp
  then show ?thesis using nb by (simp add: matchAll_brace)
qed

lemma matchAll_open:
  "list_all notBrace n \<Longrightarrow> matchAll (n @ CHR ''{'' # rest) = matchAll rest"
proof (induction n)
  case Nil
  show ?case by (simp add: matchAll_brace notBrace_def)
next
  case (Cons c n)
  have nb: "\<not> notBrace (CHR ''{'')" by (simp add: notBrace_def)
  have dw: "dropWhile notBrace ((c # n) @ CHR ''{'' # rest) = CHR ''{'' # rest"
    using Cons.prems nb by (simp add: list_all_iff dropWhile_append2)
  have "matchHere ((c # n) @ CHR ''{'' # rest) = None"
    unfolding matchHere_def dw by simp
  then have "matchAll ((c # n) @ CHR ''{'' # rest) = matchAll (n @ CHR ''{'' # rest)"
    by (subst matchAll.simps) simp
  with Cons show ?case by simp
qed

lemma matchAll_plain: "list_all notBrace n \<Longrightarrow> matchAll n = []"
proof (induction n)
  case Nil
  show ?case by (simp add: matchAll_Nil)
next
  case (Cons c n)
  have dw: "dropWhile notBrace (c # n) = []"
    using Cons.prems by (simp add: list_all_iff)
  have "matchHere (c # n) = None"
    unfolding matchHere_def dw by simp
  then have "matchAll (c # n) = matchAll n"
    by (subst matchAll.simps) simp
  with Cons show ?case by simp
qed

lemma brace_open: "\<not> notBrace (CHR ''{'')" and brace_close: "\<not> notBrace (CHR ''}'')"
  by (simp_all add: notBrace_def)

lemma matchAll_skip_literal:
  "well_formed segs \<Longrightarrow> list_all notBrace t \<Longrightarrow> matchAll (t @ render segs) = matchAll (render segs)"
proof (induction segs arbitrary: t rule: render.induct)
  case 1
  then show ?case by (simp add: matchAll_plain matchAll_Nil)
next
  case (2 u segs)
  from 2 have "matchAll (t @ u @ render segs) = matchAll (render segs)"
    using "2.IH"[of "t @ u"] by simp
  moreover from 2 have "matchAll (u @ render segs) = matchAll (render segs)"
    by simp
  ultimately show ?case by simp
next
  case (3 n segs)
  then show ?case by (simp add: matchAll_open matchAll_brace brace_open)
qed

lemma matchAll_render:
  "well_formed segs \<Longrightarrow> matchAll (render segs) = placeholder_names segs"
proof (induction segs rule: render.induct)
  case 1
  show ?case by (simp add: matchAll_Nil)
next
  case (2 t segs)
  then show ?case by (simp add: matchAll_skip_literal)
next
  case (3 n segs)
  then show ?case by (simp add: matchAll_brace brace_open matchAll_closed)
qed

lemma orEmpty_match: "orEmpty (match_placeholders s) = matchAll s"
  by (simp add: orEmpty_def match_placeholders_def split: list.splits)

lemma match_None: "match_placeholders s = None \<longleftrightarrow> matchAll s = []"
  by (simp add: match_placeholders_def split: list.splits)

lemma pushTemplate_eq:
  "pushTemplate ev ps =
     (if explicit_path ev = None then ps @ map (\<lambda>param. pathParameter param True) (matchAll (http_path ev)) else ps)"
  by (auto simp: pushTemplate_def orEmpty_match match_None)

lemma pushExplicit_eq:
  "pushExplicit decl (ps, names) =
     (ps @ map (\<lambda>(param, required). pathParameter param required) decl,
      filter (\<lambda>n. n \<notin> fst ` set decl) names)"
proof (induction decl arbitrary: ps names)
  case Nil
  show ?case by simp
next
  case (Cons d decl)
  obtain param required where d: "d = (param, required)" by (cases d)
  have "filter (\<lambda>n. n \<notin> fst ` set decl) (filter (\<lambda>s. s \<noteq> param) names)
        = filter (\<lambda>n. n \<notin> fst ` set (d # decl)) names"
    by (auto simp: d intro: filter_cong)
  then show ?case by (simp add: d Cons.IH removeStringFromArray_def)
qed

lemma httpEventToParameters_implicit:
  "explicit_path ev = None \<Longrightarrow>
   httpEventToParameters ev =
     pushBody ev @ map (\<lambda>param. pathParameter param True) (matchAll (http_path ev))"
  by (simp add: httpEventToParameters_def pushDeclared_def pushTemplate_eq)

lemma httpEventToParameters_explicit:
  "explicit_path ev = Some decl \<Longrightarrow>
   httpEventToParameters ev =
     pushBody ev @ map (\<lambda>(param, required). pathParameter param required) decl
       @ map (\<lambda>param. pathParameter param True)
           (filter (\<lambda>n. n \<notin> fst ` set decl) (matchAll (http_path ev)))"
  by (simp add: httpEventToParameters_def pushDeclared_def pushTemplate_eq pushExplicit_eq orEmpty_match)

lemma placeholder_matched:
  assumes "n \<noteq> []" "list_all notBrace n"
  shows "n \<in> set (matchAll (pre @ ''{'' @ n @ ''}'' @ post))"
proof (induction pre rule: length_induct)
  case (1 pre)
  let ?s = "pre @ ''{'' @ n @ ''}'' @ post"
  show ?case
  proof (cases pre)
    case Nil
    then show ?thesis using assms by (simp add: matchAll_brace brace_open matchAll_closed)
  next
    case (Cons c pre')
    show ?thesis
    proof (cases "matchHere ?s")
      case None
      then have "matchAll ?s = matchAll (tl ?s)"
        using Cons by (subst matchAll.simps) simp
      moreover have "n \<in> set (matchAll (pre' @ ''{'' @ n @ ''}'' @ post))"
        using 1 Cons by simp
      ultimately show ?thesis using Cons by simp
    next
      case (Some run)
      then have run: "run = takeWhile notBrace ?s" and ne: "run \<noteq> []"
        and nxt: "take 1 (dropWhile notBrace ?s) = ''}''"
        by (auto simp: matchHere_def split: if_splits)
      have brace: "\<exists>x \<in> set pre. \<not> notBrace x"
      proof (rule ccontr)
        assume "\<not> ?thesis"
        then have "dropWhile notBrace ?s = ''{'' @ n @ ''}'' @ post"
          by (simp add: dropWhile_append2 notBrace_def)
        with nxt show False by simp
      qed
      then have tw: "run = takeWhile notBrace pre"
        unfolding run by (auto simp: takeWhile_append1)
      have len: "length run \<le> length pre"
        unfolding tw by (rule length_takeWhile_le)
      have dr: "drop (length run) pre = dropWhile notBrace pre"
        unfolding tw by (simp add: dropWhile_eq_drop)
      have "drop (length run) ?s = dropWhile notBrace pre @ ''{'' @ n @ ''}'' @ post"
        using len dr by simp
      moreover have "length (dropWhile notBrace pre) < length pre"
        using ne len dr Cons by (metis diff_less length_drop length_greater_0_conv list.simps(3))
      ultimately have "n \<in> set (matchAll (drop (length run) ?s))"
        using 1 by simp
      moreover have "matchAll ?s = run # matchAll (drop (length run) ?s)"
        using Some Cons by (subst matchAll.simps) simp
      ultimately show ?thesis by simp
    qed
  qed
qed

section \<open>Properties of httpEventToParameters\<close>

lemma isPath_pathParameter [simp]: "isPath (pathParameter n r)"
  by (simp add: isPath_def pathParameter_def)

lemma isPath_bodyParameter [simp]: "\<not> isPath (bodyParameter b)"
  by (simp add: isPath_def bodyParameter_def)

lemma filter_isPath_pushBody [simp]: "filter isPath (pushBody ev) = []"
  by (simp add: pushBody_def split: option.splits)

lemma filter_isPath_map [simp]: "filter isPath (map (\<lambda>n. pathParameter n (f n)) ns) = map (\<lambda>n. pathParameter n (f n)) ns"
  by (induction ns) simp_all

lemma isBody_pathParameter [simp]: "\<not> isBody (pathParameter n r)"
  by (simp add: isBody_def pathParameter_def)

lemma isBody_bodyParameter [simp]: "isBody (bodyParameter b)"
  by (simp add: isBody_def bodyParameter_def)

lemma filter_isBody_map [simp]: "filter isBody (map (\<lambda>n. pathParameter n (f n)) ns) = []"
  by (induction ns) simp_all

lemma filter_isBody_declared [simp]:
  "filter isBody (map (\<lambda>(n, r). pathParameter n r) declared) = []"
  by (induction declared) auto

lemma filter_isPath_declared [simp]:
  "filter isPath (map (\<lambda>(n, r). pathParameter n r) declared) = map (\<lambda>(n, r). pathParameter n r) declared"
  by (induction declared) auto

lemma length_pushBody: "length (pushBody ev) \<le> Suc 0"
  by (simp add: pushBody_def split: option.splits)

lemma filter_isBody_pushBody [simp]: "filter isBody (pushBody ev) = pushBody ev"
  by (simp add: pushBody_def split: option.splits)

lemma param_name_pathParameter [simp]: "param_name (pathParameter n r) = n"
  by (simp add: pathParameter_def)

lemma names_declared [simp]:
  "map param_name (map (\<lambda>(n, r). pathParameter n r) declared) = map fst declared"
  by (induction declared) auto

lemma names_implicit [simp]:
  "map param_name (map (\<lambda>n. pathParameter n True) ns) = ns"
  by (induction ns) auto

lemma bodies_of_parameters: "filter isBody (httpEventToParameters ev) = pushBody ev"
proof (cases "explicit_path ev")
  case None
  then show ?thesis by (simp add: httpEventToParameters_implicit)
next
  case (Some declared)
  then show ?thesis by (simp add: httpEventToParameters_explicit)
qed

lemma path_names_implicit:
  "explicit_path ev = None \<Longrightarrow>
   map param_name (filter isPath (httpEventToParameters ev)) = matchAll (http_path ev)"
  by (simp add: httpEventToParameters_implicit comp_def)

lemma path_names_explicit:
  "explicit_path ev = Some declared \<Longrightarrow>
   map param_name (filter isPath (httpEventToParameters ev))
   = map fst declared @ filter (\<lambda>n. n \<notin> fst ` set declared) (matchAll (http_path ev))"
  by (simp add: httpEventToParameters_explicit comp_def split_def)

text \<open>
  C2, as stated: a template with N placeholders and no explicit \<^verbatim>\<open>parameters.path\<close> gives
  exactly N path parameters. The scan does not look for the opening brace: a run of
  characters closed by a brace counts, whatever stands before it. The template
  \<^verbatim>\<open>/users/id}\<close> has no opening brace, so no placeholder, and one path parameter is
  emitted for it.
\<close>

theorem C2_counterexample:
  "CHR ''{'' \<notin> set ''/users/id}'' \<and>
   httpEventToParameters
     \<lparr> http_path = ''/users/id}'', http_method = ''get'', http_description = None,
       http_swaggerTags = None, http_bodyType = None, http_parameters = None,
       http_responses = None \<rparr>
   = [\<lparr> param_in = ''path'', param_name = ''/users/id'', param_description = None,
        param_required = True, param_schema_ref = None, param_type = Some ''string'' \<rparr>]"
  by code_simp

text \<open>
  C2, amended: for every http event whose path template is well formed (literal text and
  \<^verbatim>\<open>{name}\<close> placeholders, no other brace, no empty name) and which has no explicit
  \<^verbatim>\<open>parameters.path\<close> declaration, the path parameters of \<open>httpEventToParameters\<close> are
  exactly the placeholders of the template, one per occurrence and in their left-to-right
  order, each \<^verbatim>\<open>{name, in: "path", required: true, type: "string"}\<close>; so N placeholders
  give N path parameters.
\<close>

theorem C2_template_placeholders:
  assumes "well_formed segs" and "http_path ev = render segs" and "explicit_path ev = None"
  shows "filter isPath (httpEventToParameters ev) =
           map (\<lambda>name. \<lparr> param_in = ''path'', param_name = name, param_description = None,
                          param_required = True, param_schema_ref = None,
                          param_type = Some ''string'' \<rparr>)
             (placeholder_names segs)
         \<and> length (filter isPath (httpEventToParameters ev)) = length (placeholder_names segs)"
proof -
  have "filter isPath (httpEventToParameters ev) =
          map (\<lambda>name. pathParameter name True) (placeholder_names segs)"
    using assms by (simp add: httpEventToParameters_implicit matchAll_render)
  then show ?thesis by (simp add: pathParameter_def)
qed

theorem C2_witness:
  "filter isPath (httpEventToParameters
      \<lparr> http_path = ''/users/{id}/orders/{orderId}'', http_method = ''get'',
        http_description = None, http_swaggerTags = None, http_bodyType = Some ''Order'',
        http_parameters = None, http_responses = None \<rparr>)
   = [\<lparr> param_in = ''path'', param_name = ''id'', param_description = None,
        param_required = True, param_schema_ref = None, param_type = Some ''string'' \<rparr>,
      \<lparr> param_in = ''path'', param_name = ''orderId'', param_description = None,
        param_required = True, param_schema_ref = None, param_type = Some ''string'' \<rparr>]"
  using C2_template_placeholders
    [of "[Literal ''/users/'', Placeholder ''id'', Literal ''/orders/'', Placeholder ''orderId'']"
        "\<lparr> http_path = ''/users/{id}/orders/{orderId}'', http_method = ''get'',
          http_description = None, http_swaggerTags = None, http_bodyType = Some ''Order'',
          http_parameters = None, http_responses = None \<rparr>"]
  by (simp add: explicit_path_def notBrace_def)

text \<open>
  C3: for every http event with an explicit \<^verbatim>\<open>parameters.path\<close> declaration, the result
  is exactly the body parameter (if any), then one path parameter for every declared
  name, with the declared boolean as its required flag, whether or not the name occurs in
  the template, then one path parameter with \<^verbatim>\<open>required: true\<close> for every name the scan
  finds in the template and the declaration does not name. So a path parameter with a
  declared name carries a flag the declaration gives that name, and every placeholder
  \<^verbatim>\<open>{name}\<close> of the template that the declaration does not name is among the
  parameters emitted afterwards.
\<close>

theorem C3_explicit_path_parameters:
  assumes "explicit_path ev = Some declared"
  shows "httpEventToParameters ev =
           pushBody ev
           @ map (\<lambda>(name, required).
                    \<lparr> param_in = ''path'', param_name = name, param_description = None,
                      param_required = required, param_schema_ref = None,
                      param_type = Some ''string'' \<rparr>) declared
           @ map (\<lambda>name.
                    \<lparr> param_in = ''path'', param_name = name, param_description = None,
                      param_required = True, param_schema_ref = None,
                      param_type = Some ''string'' \<rparr>)
               (filter (\<lambda>name. name \<notin> fst ` set declared) (matchAll (http_path ev)))
         \<and> (\<forall>p \<in> set (httpEventToParameters ev).
               isPath p \<and> param_name p \<in> fst ` set declared \<longrightarrow>
               (param_name p, param_required p) \<in> set declared)
         \<and> (\<forall>pre name post.
               http_path ev = pre @ ''{'' @ name @ ''}'' @ post \<and> name \<noteq> []
               \<and> list_all notBrace name \<and> name \<notin> fst ` set declared
               \<longrightarrow> name \<in> set (filter (\<lambda>name. name \<notin> fst ` set declared)
                                 (matchAll (http_path ev))))"
proof (intro conjI ballI allI impI)
  show "httpEventToParameters ev =
          pushBody ev
          @ map (\<lambda>(name, required).
                   \<lparr> param_in = ''path'', param_name = name, param_description = None,
                     param_required = required, param_schema_ref = None,
                     param_type = Some ''string'' \<rparr>) declared
          @ map (\<lambda>name.
                   \<lparr> param_in = ''path'', param_name = name, param_description = None,
                     param_required = True, param_schema_ref = None,
                     param_type = Some ''string'' \<rparr>)
              (filter (\<lambda>name. name \<notin> fst ` set declared) (matchAll (http_path ev)))"
    using httpEventToParameters_explicit [OF assms] by (simp add: pathParameter_def)
next
  fix p
  assume p: "p \<in> set (httpEventToParameters ev)"
    and h: "isPath p \<and> param_name p \<in> fst ` set declared"
  from p consider
      "p \<in> set (pushBody ev)"
    | "p \<in> set (map (\<lambda>(param, required). pathParameter param required) declared)"
    | "p \<in> set (map (\<lambda>param. pathParameter param True)
                   (filter (\<lambda>n. n \<notin> fst ` set declared) (matchAll (http_path ev))))"
    unfolding httpEventToParameters_explicit [OF assms] by auto
  then show "(param_name p, param_required p) \<in> set declared"
  proof cases
    case 1
    then have "\<not> isPath p"
      by (auto simp: pushBody_def split: option.splits if_splits)
    with h show ?thesis by simp
  next
    case 2
    then show ?thesis by (auto simp: pathParameter_def)
  next
    case 3
    then obtain n where "p = pathParameter n True" and "n \<notin> fst ` set declared"
      by auto
    then have "param_name p \<notin> fst ` set declared" by simp
    with h show ?thesis by simp
  qed
next
  fix pre name post
  assume h: "http_path ev = pre @ ''{'' @ name @ ''}'' @ post \<and> name \<noteq> []
             \<and> list_all notBrace name \<and> name \<notin> fst ` set declared"
  then have "name \<in> set (matchAll (http_path ev))"
    using placeholder_matched [of name pre post] by simp
  with h show "name \<in> set (filter (\<lambda>n. n \<notin> fst ` set declared) (matchAll (http_path ev)))"
    by simp
qed

theorem C3_witness:
  "httpEventToParameters
     \<lparr> http_path = ''/users/{id}/orders/{orderId}'', http_method = ''get'',
       http_description = None, http_swaggerTags = None, http_bodyType = Some ''Order'',
       http_parameters =
         Some \<lparr> parameters_path = Some [(''orderId'', False), (''page'', True)] \<rparr>,
       http_responses = None \<rparr>
   = [\<lparr> param_in = ''body'', param_name = ''body'',
        param_description = Some ''Body required in the request'', param_required = True,
        param_schema_ref = Some ''#/definitions/Order'', param_type = None \<rparr>,
      \<lparr> param_in = ''path'', param_name = ''orderId'', param_description = None,
        param_required = False, param_schema_ref = None, param_type = Some ''string'' \<rparr>,
      \<lparr> param_in = ''path'', param_name = ''page'', param_description = None,
        param_required = True, param_schema_ref = None, param_type = Some ''string'' \<rparr>,
      \<lparr> param_in = ''path'', param_name = ''id'', param_description = None,
        param_required = True, param_schema_ref = None, param_type = Some ''string'' \<rparr>]"
proof -
  let ?ev = "\<lparr> http_path = ''/users/{id}/orders/{orderId}'', http_method = ''get'',
       http_description = None, http_swaggerTags = None, http_bodyType = Some ''Order'',
       http_parameters =
         Some \<lparr> parameters_path = Some [(''orderId'', False), (''page'', True)] \<rparr>,
       http_responses = None \<rparr>"
  have e: "explicit_path ?ev = Some [(''orderId'', False), (''page'', True)]"
    by (simp add: explicit_path_def)
  have m: "matchAll (http_path ?ev) = [''id'', ''orderId'']"
    by code_simp
  from C3_explicit_path_parameters [OF e, THEN conjunct1]
  show ?thesis unfolding m by (simp add: pushBody_def bodyParameter_def)
qed

text \<open>
  C5: for every http event with a bodyType declared, the first entry of the parameter list
  is the body parameter \<^verbatim>\<open>{in: "body", name: "body", description: "Body required in the
  request", required: true, schema: {$ref: "#/definitions/<bodyType>"}}\<close>, and every entry
  after it is a path parameter, however many there are; with no bodyType, every entry is
  a path parameter. The code tests \<^verbatim>\<open>if (httpEvent.bodyType)\<close>: a declared bodyType is a
  non-empty string, and the empty string counts as none.
\<close>

theorem C5_body_parameter_first:
  "(\<forall>bodyType. http_bodyType ev = Some bodyType \<and> bodyType \<noteq> [] \<longrightarrow>
      (\<exists>rest. httpEventToParameters ev =
                 \<lparr> param_in = ''body'', param_name = ''body'',
                   param_description = Some ''Body required in the request'',
                   param_required = True,
                   param_schema_ref = Some (''#/definitions/'' @ bodyType),
                   param_type = None \<rparr> # rest
               \<and> list_all isPath rest))
   \<and> (http_bodyType ev = None \<or> http_bodyType ev = Some [] \<longrightarrow>
        list_all isPath (httpEventToParameters ev))"
proof -
  have shape: "\<exists>rest. httpEventToParameters ev = pushBody ev @ rest \<and> list_all isPath rest"
  proof (cases "explicit_path ev")
    case None
    then show ?thesis
      by (simp add: httpEventToParameters_implicit list_all_iff)
  next
    case (Some declared)
    then show ?thesis
      by (auto simp: httpEventToParameters_explicit list_all_iff)
  qed
  then obtain rest where r: "httpEventToParameters ev = pushBody ev @ rest" "list_all isPath rest"
    by blast
  show ?thesis
    using r by (auto simp: pushBody_def bodyParameter_def)
qed

theorem C5_witness:
  "(\<exists>rest. httpEventToParameters
        \<lparr> http_path = ''/orders/{id}/{line}'', http_method = ''post'',
          http_description = None, http_swaggerTags = None, http_bodyType = Some ''Order'',
          http_parameters = None, http_responses = None \<rparr>
      = \<lparr> param_in = ''body'', param_name = ''body'',
          param_description = Some ''Body required in the request'',
          param_required = True,
          param_schema_ref = Some ''#/definitions/Order'',
          param_type = None \<rparr> # rest
      \<and> list_all isPath rest)
   \<and> list_all isPath (httpEventToParameters
        \<lparr> http_path = ''/orders/{id}/{line}'', http_method = ''get'',
          http_description = None, http_swaggerTags = None, http_bodyType = None,
          http_parameters = None, http_responses = None \<rparr>)"
  using C5_body_parameter_first
    [of "\<lparr> http_path = ''/orders/{id}/{line}'', http_method = ''post'',
          http_description = None, http_swaggerTags = None, http_bodyType = Some ''Order'',
          http_parameters = None, http_responses = None \<rparr>"]
    C5_body_parameter_first
    [of "\<lparr> http_path = ''/orders/{id}/{line}'', http_method = ''get'',
          http_description = None, http_swaggerTags = None, http_bodyType = None,
          http_parameters = None, http_responses = None \<rparr>"]
  by simp

text \<open>
  C9, as stated: the path parameters are pairwise distinct by name, also when the
  template repeats a placeholder name. For \<^verbatim>\<open>/{id}/{id}\<close> with no explicit declaration
  the code emits the name \<^verbatim>\<open>id\<close> twice.
\<close>

theorem C9_counterexample:
  "map param_name
     (filter isPath
        (httpEventToParameters
           \<lparr> http_path = ''/{id}/{id}'', http_method = ''get'', http_description = None,
             http_swaggerTags = None, http_bodyType = None, http_parameters = None,
             http_responses = None \<rparr>))
   = [''id'', ''id'']"
  by code_simp

text \<open>On a list that repeats no name, removing every occurrence of a name and removing
  its first occurrence are the same.\<close>

lemma removeStringFromArray_distinct:
  "distinct array \<Longrightarrow> removeStringFromArray array v = remove1 v array"
  by (induction array) (auto simp: removeStringFromArray_def filter_id_conv)

text \<open>
  C9, amended: for every http event, the parameter list holds at most one body parameter.
  With no explicit \<^verbatim>\<open>parameters.path\<close> declaration the names of its path parameters are
  exactly the names the scan finds in the path template, one per occurrence: a repeated
  placeholder name is not removed. The path parameters are pairwise distinct by name
  whenever the names the scan finds in the template are pairwise distinct, in particular
  for a well-formed template whose placeholder names are pairwise distinct; this holds
  also when a name stands both in the template and in the explicit declaration (whose
  names, the keys of an object, are distinct): it is emitted once, from the declaration.
\<close>

theorem C9_at_most_one_body_distinct_paths:
  "length (filter isBody (httpEventToParameters ev)) \<le> 1
   \<and> (explicit_path ev = None \<longrightarrow>
        map param_name (filter isPath (httpEventToParameters ev)) = matchAll (http_path ev))
   \<and> (distinct (matchAll (http_path ev))
        \<and> (\<forall>declared. explicit_path ev = Some declared \<longrightarrow> distinct (map fst declared))
        \<longrightarrow> distinct (map param_name (filter isPath (httpEventToParameters ev))))
   \<and> (http_path ev = render segs \<and> well_formed segs \<and> distinct (placeholder_names segs)
        \<and> (\<forall>declared. explicit_path ev = Some declared \<longrightarrow> distinct (map fst declared))
        \<longrightarrow> distinct (map param_name (filter isPath (httpEventToParameters ev))))"
proof -
  have body: "length (filter isBody (httpEventToParameters ev)) \<le> 1"
    using length_pushBody [of ev] by (simp add: bodies_of_parameters)
  have names: "distinct (map param_name (filter isPath (httpEventToParameters ev)))"
    if scan: "distinct (matchAll (http_path ev))"
      and keys: "\<forall>declared. explicit_path ev = Some declared \<longrightarrow> distinct (map fst declared)"
  proof (cases "explicit_path ev")
    case None
    then show ?thesis using scan by (simp add: path_names_implicit)
  next
    case (Some declared)
    then have "distinct (map fst declared)" using keys by simp
    then have "distinct (map fst declared
                 @ filter (\<lambda>n. n \<notin> fst ` set declared) (matchAll (http_path ev)))"
      using scan by auto
    then show ?thesis using Some by (simp add: path_names_explicit)
  qed
  have template: "distinct (matchAll (http_path ev))"
    if "http_path ev = render segs" "well_formed segs" "distinct (placeholder_names segs)"
    using that by (simp add: matchAll_render)
  show ?thesis
    using body names template by (auto simp: path_names_implicit)
qed

theorem C9_witness:
  "length (filter isBody (httpEventToParameters
      \<lparr> http_path = ''/users/{id}/orders/{orderId}'', http_method = ''get'',
        http_description = None, http_swaggerTags = None, http_bodyType = Some ''Order'',
        http_parameters = Some \<lparr> parameters_path = Some [(''id'', False)] \<rparr>,
        http_responses = None \<rparr>)) \<le> 1
   \<and> distinct (map param_name (filter isPath (httpEventToParameters
      \<lparr> http_path = ''/users/{id}/orders/{orderId}'', http_method = ''get'',
        http_description = None, http_swaggerTags = None, http_bodyType = Some ''Order'',
        http_parameters = Some \<lparr> parameters_path = Some [(''id'', False)] \<rparr>,
        http_responses = None \<rparr>)))
   \<and> length (filter isBody (httpEventToParameters
      \<lparr> http_path = ''/{id}/{id}'', http_method = ''get'', http_description = None,
        http_swaggerTags = None, http_bodyType = Some ''Order'', http_parameters = None,
        http_responses = None \<rparr>)) \<le> 1"
proof -
  let ?ev = "\<lparr> http_path = ''/users/{id}/orders/{orderId}'', http_method = ''get'',
        http_description = None, http_swaggerTags = None, http_bodyType = Some ''Order'',
        http_parameters = Some \<lparr> parameters_path = Some [(''id'', False)] \<rparr>,
        http_responses = None \<rparr>"
  let ?segs = "[Literal ''/users/'', Placeholder ''id'', Literal ''/orders/'',
                Placeholder ''orderId'']"
  let ?twice = "\<lparr> http_path = ''/{id}/{id}'', http_method = ''get'', http_description = None,
        http_swaggerTags = None, http_bodyType = Some ''Order'', http_parameters = None,
        http_responses = None \<rparr>"
  have h: "http_path ?ev = render ?segs \<and> well_formed ?segs
        \<and> distinct (placeholder_names ?segs)
        \<and> (\<forall>declared. explicit_path ?ev = Some declared \<longrightarrow> distinct (map fst declared))"
    by (simp add: explicit_path_def notBrace_def)
  from C9_at_most_one_body_distinct_paths [of ?ev ?segs] h
  have "length (filter isBody (httpEventToParameters ?ev)) \<le> 1"
    and "distinct (map param_name (filter isPath (httpEventToParameters ?ev)))"
    by blast+
  moreover from C9_at_most_one_body_distinct_paths [of ?twice "[]"]
  have "length (filter isBody (httpEventToParameters ?twice)) \<le> 1"
    by blast
  ultimately show ?thesis by blast
qed

section \<open>Properties of formatResponses\<close>

lemma formatResponses_Some:
  "formatResponses (Some entries) = foldl storeResponse Map.empty entries"
  by (simp add: formatResponses_def)

lemma dom_storeResponse:
  "dom (storeResponse m (statusCode, details)) = dom m \<union> ({statusCode} - {''__proto__''})"
  by auto

lemma dom_foldl_storeResponse:
  "dom (foldl storeResponse m entries) = dom m \<union> (fst ` set entries - {''__proto__''})"
proof (induction entries arbitrary: m)
  case Nil
  show ?case by simp
next
  case (Cons e entries)
  obtain statusCode details where e: "e = (statusCode, details)" by (cases e)
  have "dom (foldl storeResponse (storeResponse m e) entries)
        = dom (storeResponse m e) \<union> (fst ` set entries - {''__proto__''})"
    by (rule Cons.IH)
  then show ?case unfolding e dom_storeResponse by auto
qed

lemma foldl_storeResponse_other:
  "statusCode \<notin> fst ` set entries \<Longrightarrow> foldl storeResponse m entries statusCode = m statusCode"
  by (induction entries arbitrary: m) auto

lemma foldl_storeResponse_entry:
  "distinct (map fst entries) \<Longrightarrow> (statusCode, details) \<in> set entries \<Longrightarrow>
   statusCode \<noteq> ''__proto__'' \<Longrightarrow>
   foldl storeResponse m entries statusCode = Some (formatResponse statusCode details)"
proof (induction entries arbitrary: m)
  case Nil
  then show ?case by simp
next
  case (Cons e entries)
  show ?case
  proof (cases "e = (statusCode, details)")
    case True
    then have "statusCode \<notin> fst ` set entries" using Cons.prems(1) by auto
    then show ?thesis using True Cons.prems(3) by (simp add: foldl_storeResponse_other)
  next
    case False
    then show ?thesis using Cons by auto
  qed
qed

text \<open>
  C4, as stated: of a declared map \<open>formatResponses\<close> returns one entry per input status
  code. The result is built by assignments to an object written \<^verbatim>\<open>{}\<close>: for the key
  \<^verbatim>\<open>__proto__\<close> the assignment sets the prototype and stores nothing, so a declaration
  with that one key gives a result with no entry.
\<close>

theorem C4_counterexample:
  "dom (formatResponses (Some [(''__proto__'', ResponseString ''Created'')])) = {}"
  by (simp add: formatResponses_def)

text \<open>
  C4, amended: \<open>formatResponses\<close> of an absent declaration is exactly
  \<^verbatim>\<open>{200: {description: "200 response"}}\<close>. Of a declared map (its status codes are the
  keys of an object, so distinct) it has one entry per status code other than the key
  \<^verbatim>\<open>__proto__\<close>, which gets none: a plain string gives \<^verbatim>\<open>{description: value}\<close>; an
  object gives its description, or \<^verbatim>\<open><statusCode> response\<close> when the description is
  absent, and the schema \<^verbatim>\<open>{$ref: "#/definitions/<name>"}\<close> exactly when a bodyType
  name is present. The code tests both with JavaScript truthiness, under which the empty
  string counts as absent.
\<close>

theorem C4_formatResponses:
  "formatResponses None =
     [''200'' \<mapsto> \<lparr> response_description = ''200 response'', response_schema_ref = None \<rparr>]
   \<and> (distinct (map fst entries) \<longrightarrow>
        dom (formatResponses (Some entries)) = fst ` set entries - {''__proto__''}
        \<and> (\<forall>statusCode v.
              (statusCode, ResponseString v) \<in> set entries \<and> statusCode \<noteq> ''__proto__'' \<longrightarrow>
              formatResponses (Some entries) statusCode =
                Some \<lparr> response_description = v, response_schema_ref = None \<rparr>)
        \<and> (\<forall>statusCode description bodyType.
              (statusCode, ResponseObject description bodyType) \<in> set entries
              \<and> statusCode \<noteq> ''__proto__'' \<longrightarrow>
              formatResponses (Some entries) statusCode =
                Some \<lparr> response_description =
                         (if description = None \<or> description = Some []
                          then statusCode @ '' response'' else the description),
                       response_schema_ref =
                         (if bodyType = None \<or> bodyType = Some []
                          then None else Some (''#/definitions/'' @ the bodyType)) \<rparr>))"
proof (intro conjI impI allI)
  show "formatResponses None =
     [''200'' \<mapsto> \<lparr> response_description = ''200 response'', response_schema_ref = None \<rparr>]"
    by (simp add: formatResponses_def)
next
  show "dom (formatResponses (Some entries)) = fst ` set entries - {''__proto__''}"
    by (simp add: formatResponses_Some dom_foldl_storeResponse)
next
  fix statusCode v
  assume d: "distinct (map fst entries)"
    and h: "(statusCode, ResponseString v) \<in> set entries \<and> statusCode \<noteq> ''__proto__''"
  from foldl_storeResponse_entry [OF d conjunct1 [OF h] conjunct2 [OF h], of Map.empty]
  show "formatResponses (Some entries) statusCode =
                Some \<lparr> response_description = v, response_schema_ref = None \<rparr>"
    by (simp add: formatResponses_Some formatResponse_def)
next
  fix statusCode description bodyType
  assume d: "distinct (map fst entries)"
    and h: "(statusCode, ResponseObject description bodyType) \<in> set entries
     \<and> statusCode \<noteq> ''__proto__''"
  from foldl_storeResponse_entry [OF d conjunct1 [OF h] conjunct2 [OF h], of Map.empty]
  show "formatResponses (Some entries) statusCode =
                Some \<lparr> response_description =
                         (if description = None \<or> description = Some []
                          then statusCode @ '' response'' else the description),
                       response_schema_ref =
                         (if bodyType = None \<or> bodyType = Some []
                          then None else Some (''#/definitions/'' @ the bodyType)) \<rparr>"
    by (auto simp: formatResponses_Some formatResponse_def split: option.splits)
qed

theorem C4_witness:
  "formatResponses None =
     [''200'' \<mapsto> \<lparr> response_description = ''200 response'', response_schema_ref = None \<rparr>]
   \<and> dom (formatResponses
        (Some [(''201'', ResponseString ''Created''),
               (''200'', ResponseObject None (Some ''User'')),
               (''404'', ResponseObject (Some ''No such user'') None)]))
      = {''201'', ''200'', ''404''}
   \<and> formatResponses
        (Some [(''201'', ResponseString ''Created''),
               (''200'', ResponseObject None (Some ''User'')),
               (''404'', ResponseObject (Some ''No such user'') None)]) ''201''
      = Some \<lparr> response_description = ''Created'', response_schema_ref = None \<rparr>
   \<and> formatResponses
        (Some [(''201'', ResponseString ''Created''),
               (''200'', ResponseObject None (Some ''User'')),
               (''404'', ResponseObject (Some ''No such user'') None)]) ''200''
      = Some \<lparr> response_description = ''200 response'',
               response_schema_ref = Some ''#/definitions/User'' \<rparr>
   \<and> formatResponses
        (Some [(''201'', ResponseString ''Created''),
               (''200'', ResponseObject None (Some ''User'')),
               (''404'', ResponseObject (Some ''No such user'') None)]) ''404''
      = Some \<lparr> response_description = ''No such user'', response_schema_ref = None \<rparr>"
  using C4_formatResponses
    [of "[(''201'', ResponseString ''Created''),
          (''200'', ResponseObject None (Some ''User'')),
          (''404'', ResponseObject (Some ''No such user'') None)]"]
  by simp

section \<open>Properties of generatePaths\<close>

lemma addOperation_shorthand:
  "addOperation functionName paths (HttpEvent (Shorthand s)) = paths"
  "addOperation functionName paths (HttpApiEvent (Shorthand s)) = paths"
  "addOperation functionName paths OtherEvent = paths"
  by (simp_all add: addOperation_def)

lemma addOperation_httpApi:
  "addOperation functionName paths (HttpApiEvent (Full http)) =
   addOperation functionName paths (HttpEvent (Full http))"
  by (simp add: addOperation_def)

lemma foldl_addOperation:
  "foldl (addOperation functionName) paths (filter (\<lambda>event. http_or_httpApi event \<noteq> None) events)
   = foldl putRoute paths (map (Pair functionName) (concat (map fullTriggers events)))"
proof (induction events arbitrary: paths)
  case Nil
  show ?case by simp
next
  case (Cons e events)
  show ?case
  proof (cases e)
    case (HttpEvent t)
    then show ?thesis using Cons by (cases t) (simp_all add: addOperation_shorthand)
  next
    case (HttpApiEvent t)
    then show ?thesis
      using Cons by (cases t) (simp_all add: addOperation_shorthand addOperation_httpApi)
  next
    case OtherEvent
    then show ?thesis using Cons by simp
  qed
qed

lemma addFunction_routes:
  "addFunction paths (functionName, config) =
   foldl putRoute paths
     (map (Pair functionName)
        (concat (map fullTriggers
           (case config_events config of None \<Rightarrow> [] | Some events \<Rightarrow> events))))"
  by (simp add: addFunction_def foldl_addOperation del: not_None_eq)

lemma foldl_addFunction:
  "foldl addFunction paths fs = foldl putRoute paths (routes fs)"
proof (induction fs arbitrary: paths)
  case Nil
  show ?case by (simp add: routes_def)
next
  case (Cons f fs)
  obtain functionName config where f: "f = (functionName, config)" by (cases f)
  have "routes (f # fs) =
          map (Pair functionName)
            (concat (map fullTriggers
               (case config_events config of None \<Rightarrow> [] | Some events \<Rightarrow> events)))
          @ routes fs"
    by (simp add: routes_def f)
  then show ?case by (simp add: f addFunction_routes Cons.IH)
qed

lemma generatePaths_routes:
  "swagger_paths (this_swagger (generatePaths this)) =
   foldl putRoute Map.empty (routes (service_functions this))"
  by (simp add: generatePaths_def Let_def foldl_addFunction)

lemma lookup_putRoute:
  "lookupOperation (putRoute paths (functionName, http)) p m =
     (if p = normalizePath (http_path http) \<and> m = http_method http \<and> m \<noteq> ''__proto__''
      then Some (operationObject functionName http)
      else lookupOperation paths p m)"
  by (auto simp: lookupOperation_def addOperation_def Let_def split: option.splits)

lemma putRoute_None:
  "putRoute paths (functionName, http) p = None \<longleftrightarrow>
     paths p = None \<and> p \<noteq> normalizePath (http_path http)"
  by (auto simp: addOperation_def Let_def)

lemma foldl_putRoute_None:
  "foldl putRoute paths rs p = None \<longleftrightarrow>
     paths p = None \<and> (\<forall>(functionName, http) \<in> set rs. normalizePath (http_path http) \<noteq> p)"
proof (induction rs arbitrary: paths)
  case Nil
  show ?case by simp
next
  case (Cons r rs)
  obtain functionName http where r: "r = (functionName, http)" by (cases r)
  show ?case unfolding r by (auto simp: Cons.IH putRoute_None simp del: putRoute.simps)
qed

lemma lookup_foldl_absent:
  "\<forall>(functionName, http) \<in> set rs.
     \<not> (normalizePath (http_path http) = p \<and> http_method http = m \<and> m \<noteq> ''__proto__'') \<Longrightarrow>
   lookupOperation (foldl putRoute paths rs) p m = lookupOperation paths p m"
proof (induction rs arbitrary: paths)
  case Nil
  show ?case by simp
next
  case (Cons r rs)
  obtain functionName http where r: "r = (functionName, http)" by (cases r)
  from Cons.prems have "lookupOperation (putRoute paths r) p m = lookupOperation paths p m"
    unfolding r by (auto simp: lookup_putRoute simp del: putRoute.simps)
  moreover from Cons.prems have "lookupOperation (foldl putRoute (putRoute paths r) rs) p m
      = lookupOperation (putRoute paths r) p m"
    by (intro Cons.IH) simp
  ultimately show ?case by simp
qed

lemma lookup_foldl_last:
  assumes "http_method http \<noteq> ''__proto__''"
    and "\<forall>(functionName', http') \<in> set after.
             \<not> (normalizePath (http_path http') = normalizePath (http_path http)
                \<and> http_method http' = http_method http)"
  shows "lookupOperation (foldl putRoute paths (before @ (functionName, http) # after))
           (normalizePath (http_path http)) (http_method http)
         = Some (operationObject functionName http)"
proof -
  have later: "\<forall>(functionName', http') \<in> set after.
             \<not> (normalizePath (http_path http') = normalizePath (http_path http)
                \<and> http_method http' = http_method http
                \<and> http_method http \<noteq> ''__proto__'')"
    using assms(2) by auto
  have "lookupOperation (foldl putRoute paths (before @ (functionName, http) # after))
           (normalizePath (http_path http)) (http_method http)
        = lookupOperation (putRoute (foldl putRoute paths before) (functionName, http))
           (normalizePath (http_path http)) (http_method http)"
    using lookup_foldl_absent [OF later] by simp
  then show ?thesis using assms(1) by (simp add: lookup_putRoute del: putRoute.simps)
qed

lemma normalizePath_slash: "take 1 (normalizePath path) = ''/''"
  by (simp add: normalizePath_def)

text \<open>
  C1, as stated: within a path, the operation is keyed by the lower-cased method, and a
  later route with the same path and method overwrites the earlier one. The code stores
  under \<^verbatim>\<open>http.method\<close> as it is declared: a route declared with method \<^verbatim>\<open>GET\<close> is
  stored under the key \<^verbatim>\<open>GET\<close>, and that is the only key of its path. And the object at
  a path is written \<^verbatim>\<open>{}\<close>: a route declared with method \<^verbatim>\<open>__proto__\<close> sets its
  prototype and stores no operation, so its path has no key at all.
\<close>

theorem C1_counterexample:
  "map_option dom
     (swagger_paths (this_swagger (generatePaths
        \<lparr> service_service = ''users'', service_typefiles = None,
          service_functions =
            [(''getUser'',
              \<lparr> config_events = Some [HttpEvent (Full
                  \<lparr> http_path = ''user/{id}'', http_method = ''GET'',
                    http_description = None, http_swaggerTags = None,
                    http_bodyType = None, http_parameters = None,
                    http_responses = None \<rparr>)] \<rparr>)],
          this_swagger = (initial_swagger :: unit Swagger), logged = [] \<rparr>))
        ''/user/{id}'')
   = Some {''GET''}
   \<and> map_option dom
     (swagger_paths (this_swagger (generatePaths
        \<lparr> service_service = ''users'', service_typefiles = None,
          service_functions =
            [(''getUser'',
              \<lparr> config_events = Some [HttpEvent (Full
                  \<lparr> http_path = ''user/{id}'', http_method = ''__proto__'',
                    http_description = None, http_swaggerTags = None,
                    http_bodyType = None, http_parameters = None,
                    http_responses = None \<rparr>)] \<rparr>)],
          this_swagger = (initial_swagger :: unit Swagger), logged = [] \<rparr>))
        ''/user/{id}'')
   = Some {}"
  by (simp add: generatePaths_def addFunction_def addOperation_def normalizePath_def)

text \<open>
  C1, amended: for every set of route declarations, the paths map is grouped by the
  normalized path template (a leading slash is put before a template that does not start
  with one): its keys are exactly the normalized templates of the routes, and each starts
  with a slash. Within a path the operation object is keyed by the HTTP method as it is
  declared, with no change of case; a route whose method is the string \<^verbatim>\<open>__proto__\<close>
  stores no operation, and no path has that key. Where several routes declare the same
  path and method, other than \<^verbatim>\<open>__proto__\<close>, the operation of the route processed last
  is the one stored, and there is no error.
\<close>

theorem C1_paths_grouped_last_wins:
  "(swagger_paths (this_swagger (generatePaths this)) p = None \<longleftrightarrow>
      (\<forall>(functionName, http) \<in> set (routes (service_functions this)).
         normalizePath (http_path http) \<noteq> p))
   \<and> (swagger_paths (this_swagger (generatePaths this)) p \<noteq> None \<longrightarrow> take 1 p = ''/'')
   \<and> ((\<forall>(functionName, http) \<in> set (routes (service_functions this)).
          \<not> (normalizePath (http_path http) = p \<and> http_method http = m
             \<and> m \<noteq> ''__proto__'')) \<longrightarrow>
        lookupOperation (swagger_paths (this_swagger (generatePaths this))) p m = None)
   \<and> (routes (service_functions this) = before @ (functionName, http) # after
        \<and> http_method http \<noteq> ''__proto__''
        \<and> (\<forall>(functionName', http') \<in> set after.
              \<not> (normalizePath (http_path http') = normalizePath (http_path http)
                 \<and> http_method http' = http_method http)) \<longrightarrow>
        lookupOperation (swagger_paths (this_swagger (generatePaths this)))
          (normalizePath (http_path http)) (http_method http)
        = Some (operationObject functionName http))"
proof (intro conjI impI)
  show "swagger_paths (this_swagger (generatePaths this)) p = None \<longleftrightarrow>
      (\<forall>(functionName, http) \<in> set (routes (service_functions this)).
         normalizePath (http_path http) \<noteq> p)"
    by (simp add: generatePaths_routes foldl_putRoute_None)
next
  assume "swagger_paths (this_swagger (generatePaths this)) p \<noteq> None"
  then have "\<exists>path. normalizePath path = p"
    by (auto simp: generatePaths_routes foldl_putRoute_None)
  then show "take 1 p = ''/''" using normalizePath_slash by blast
next
  assume a: "\<forall>(functionName, http) \<in> set (routes (service_functions this)).
          \<not> (normalizePath (http_path http) = p \<and> http_method http = m
             \<and> m \<noteq> ''__proto__'')"
  have "lookupOperation Map.empty p m = None"
    by (simp add: lookupOperation_def)
  with lookup_foldl_absent [OF a, of Map.empty]
  show "lookupOperation (swagger_paths (this_swagger (generatePaths this))) p m = None"
    by (simp only: generatePaths_routes)
next
  assume h: "routes (service_functions this) = before @ (functionName, http) # after
        \<and> http_method http \<noteq> ''__proto__''
        \<and> (\<forall>(functionName', http') \<in> set after.
              \<not> (normalizePath (http_path http') = normalizePath (http_path http)
                 \<and> http_method http' = http_method http))"
  then have r: "routes (service_functions this) = before @ (functionName, http) # after"
    and m: "http_method http \<noteq> ''__proto__''"
    and a: "\<forall>(functionName', http') \<in> set after.
              \<not> (normalizePath (http_path http') = normalizePath (http_path http)
                 \<and> http_method http' = http_method http)"
    by blast+
  show "lookupOperation (swagger_paths (this_swagger (generatePaths this)))
          (normalizePath (http_path http)) (http_method http)
        = Some (operationObject functionName http)"
    unfolding generatePaths_routes r by (rule lookup_foldl_last [OF m a])
qed

theorem C1_witness:
  "map_option op_operationId
     (lookupOperation
        (swagger_paths (this_swagger (generatePaths
           \<lparr> service_service = ''users'', service_typefiles = None,
             service_functions =
               [(''getUser'', \<lparr> config_events = Some [HttpEvent (Full
                    \<lparr> http_path = ''user/{id}'', http_method = ''get'',
                      http_description = None, http_swaggerTags = None,
                      http_bodyType = None, http_parameters = None,
                      http_responses = None \<rparr>)] \<rparr>),
                (''readUser'', \<lparr> config_events = Some [HttpApiEvent (Full
                    \<lparr> http_path = ''/user/{id}'', http_method = ''get'',
                      http_description = None, http_swaggerTags = None,
                      http_bodyType = None, http_parameters = None,
                      http_responses = None \<rparr>)] \<rparr>)],
             this_swagger = (initial_swagger :: unit Swagger), logged = [] \<rparr>)))
        ''/user/{id}'' ''get'')
   = Some ''readUser''"
proof -
  let ?h1 = "\<lparr> http_path = ''user/{id}'', http_method = ''get'',
                      http_description = None, http_swaggerTags = None,
                      http_bodyType = None, http_parameters = None,
                      http_responses = None \<rparr>"
  let ?h2 = "\<lparr> http_path = ''/user/{id}'', http_method = ''get'',
                      http_description = None, http_swaggerTags = None,
                      http_bodyType = None, http_parameters = None,
                      http_responses = None \<rparr>"
  let ?st = "\<lparr> service_service = ''users'', service_typefiles = None,
             service_functions =
               [(''getUser'', \<lparr> config_events = Some [HttpEvent (Full ?h1)] \<rparr>),
                (''readUser'', \<lparr> config_events = Some [HttpApiEvent (Full ?h2)] \<rparr>)],
             this_swagger = (initial_swagger :: unit Swagger), logged = [] \<rparr>"
  have r: "routes (service_functions ?st) = [(''getUser'', ?h1)] @ (''readUser'', ?h2) # []"
    by (simp add: routes_def)
  have "lookupOperation (swagger_paths (this_swagger (generatePaths ?st)))
          (normalizePath (http_path ?h2)) (http_method ?h2)
        = Some (operationObject ''readUser'' ?h2)"
    using C1_paths_grouped_last_wins
      [of ?st "''/user/{id}''" "''get''" "[(''getUser'', ?h1)]" "''readUser''" ?h2 "[]"] r
    by simp
  then show ?thesis by (simp add: normalizePath_def operationObject_def)
qed

text \<open>
  C8: for every route whose trigger is the shorthand string, under \<^verbatim>\<open>http\<close> or under
  \<^verbatim>\<open>httpApi\<close>, the callback stores nothing, and the paths map is the one obtained
  without that event; when it is the only event of its function, the one obtained
  without the function.
\<close>

theorem C8_shorthand_skipped:
  assumes "e = HttpEvent (Shorthand s) \<or> e = HttpApiEvent (Shorthand s)"
  shows "addOperation functionName paths e = paths
    \<and> swagger_paths (this_swagger (generatePaths
          (st\<lparr> service_functions :=
             before @ (functionName, \<lparr> config_events = Some (es1 @ e # es2) \<rparr>) # after \<rparr>)))
      = swagger_paths (this_swagger (generatePaths
          (st\<lparr> service_functions :=
             before @ (functionName, \<lparr> config_events = Some (es1 @ es2) \<rparr>) # after \<rparr>)))
    \<and> swagger_paths (this_swagger (generatePaths
          (st\<lparr> service_functions :=
             before @ (functionName, \<lparr> config_events = Some [e] \<rparr>) # after \<rparr>)))
      = swagger_paths (this_swagger (generatePaths
          (st\<lparr> service_functions := before @ after \<rparr>)))"
proof -
  have none: "fullTriggers e = []" using assms by auto
  have a: "addOperation functionName paths e = paths"
    using assms by (auto simp: addOperation_shorthand)
  have b: "routes (before @ (functionName, \<lparr> config_events = Some (es1 @ e # es2) \<rparr>) # after)
         = routes (before @ (functionName, \<lparr> config_events = Some (es1 @ es2) \<rparr>) # after)"
    by (simp add: routes_def none)
  have c: "routes (before @ (functionName, \<lparr> config_events = Some [e] \<rparr>) # after)
         = routes (before @ after)"
    by (simp add: routes_def none)
  show ?thesis by (simp add: a generatePaths_routes b c)
qed

theorem C8_witness:
  "swagger_paths (this_swagger (generatePaths
      \<lparr> service_service = ''users'', service_typefiles = None,
        service_functions =
          [(''listUsers'', \<lparr> config_events = Some [HttpEvent (Shorthand ''GET users'')] \<rparr>)],
        this_swagger = (initial_swagger :: unit Swagger), logged = [] \<rparr>))
   = Map.empty"
proof -
  let ?st = "\<lparr> service_service = ''users'', service_typefiles = None,
        service_functions = [],
        this_swagger = (initial_swagger :: unit Swagger), logged = [] \<rparr>"
  have "HttpEvent (Shorthand ''GET users'') = HttpEvent (Shorthand ''GET users'')
        \<or> HttpEvent (Shorthand ''GET users'') = HttpApiEvent (Shorthand ''GET users'')"
    by simp
  from C8_shorthand_skipped
    [OF this, where functionName = "''listUsers''" and paths = Map.empty and st = ?st
       and before = "[]" and after = "[]" and ?es1.0 = "[]" and ?es2.0 = "[]",
     THEN conjunct2, THEN conjunct2]
  have "swagger_paths (this_swagger (generatePaths
      \<lparr> service_service = ''users'', service_typefiles = None,
        service_functions =
          [(''listUsers'', \<lparr> config_events = Some [HttpEvent (Shorthand ''GET users'')] \<rparr>)],
        this_swagger = (initial_swagger :: unit Swagger), logged = [] \<rparr>))
    = swagger_paths (this_swagger (generatePaths ?st))"
    by simp
  also have "\<dots> = Map.empty"
    by (simp add: generatePaths_def)
  finally show ?thesis .
qed

text \<open>
  C10: \<open>generatePaths\<close> assigns the paths field of the document and nothing else: the
  version marker, the info block, the schemes and the definitions are what they were
  before the call (for the document the plugin starts with: \<^verbatim>\<open>2.0\<close>, the title and
  version \<^verbatim>\<open>1\<close>, \<^verbatim>\<open>https\<close>, no definitions).
\<close>

theorem C10_generatePaths_frame:
  "generatePaths this =
     this\<lparr> this_swagger := (this_swagger this)
            \<lparr> swagger_paths := swagger_paths (this_swagger (generatePaths this)) \<rparr> \<rparr>
   \<and> swagger_swagger (this_swagger (generatePaths this)) = swagger_swagger (this_swagger this)
   \<and> swagger_info (this_swagger (generatePaths this)) = swagger_info (this_swagger this)
   \<and> swagger_schemes (this_swagger (generatePaths this)) = swagger_schemes (this_swagger this)
   \<and> swagger_definitions (this_swagger (generatePaths this))
      = swagger_definitions (this_swagger this)"
  by (simp add: generatePaths_def Let_def)

theorem C10_witness:
  "swagger_swagger (this_swagger (generatePaths
      \<lparr> service_service = ''users'', service_typefiles = None,
        service_functions =
          [(''getUser'', \<lparr> config_events = Some [HttpEvent (Full
               \<lparr> http_path = ''user/{id}'', http_method = ''get'',
                 http_description = None, http_swaggerTags = None,
                 http_bodyType = None, http_parameters = None,
                 http_responses = None \<rparr>)] \<rparr>)],
        this_swagger = (initial_swagger :: unit Swagger), logged = [] \<rparr>)) = ''2.0''
   \<and> swagger_info (this_swagger (generatePaths
      \<lparr> service_service = ''users'', service_typefiles = None,
        service_functions =
          [(''getUser'', \<lparr> config_events = Some [HttpEvent (Full
               \<lparr> http_path = ''user/{id}'', http_method = ''get'',
                 http_description = None, http_swaggerTags = None,
                 http_bodyType = None, http_parameters = None,
                 http_responses = None \<rparr>)] \<rparr>)],
        this_swagger = (initial_swagger :: unit Swagger), logged = [] \<rparr>))
      = \<lparr> info_title = [], info_version = ''1'' \<rparr>
   \<and> swagger_schemes (this_swagger (generatePaths
      \<lparr> service_service = ''users'', service_typefiles = None,
        service_functions =
          [(''getUser'', \<lparr> config_events = Some [HttpEvent (Full
               \<lparr> http_path = ''user/{id}'', http_method = ''get'',
                 http_description = None, http_swaggerTags = None,
                 http_bodyType = None, http_parameters = None,
                 http_responses = None \<rparr>)] \<rparr>)],
        this_swagger = (initial_swagger :: unit Swagger), logged = [] \<rparr>)) = [''https'']
   \<and> swagger_definitions (this_swagger (generatePaths
      \<lparr> service_service = ''users'', service_typefiles = None,
        service_functions =
          [(''getUser'', \<lparr> config_events = Some [HttpEvent (Full
               \<lparr> http_path = ''user/{id}'', http_method = ''get'',
                 http_description = None, http_swaggerTags = None,
                 http_bodyType = None, http_parameters = None,
                 http_responses = None \<rparr>)] \<rparr>)],
        this_swagger = (initial_swagger :: unit Swagger), logged = [] \<rparr>)) = None"
  using C10_generatePaths_frame
    [of "\<lparr> service_service = ''users'', service_typefiles = None,
        service_functions =
          [(''getUser'', \<lparr> config_events = Some [HttpEvent (Full
               \<lparr> http_path = ''user/{id}'', http_method = ''get'',
                 http_description = None, http_swaggerTags = None,
                 http_bodyType = None, http_parameters = None,
                 http_responses = None \<rparr>)] \<rparr>)],
        this_swagger = (initial_swagger :: unit Swagger), logged = [] \<rparr>"]
  by (simp add: initial_swagger_def)

section \<open>Properties of gatherTypes\<close>

lemma mergeDefinitions_None:
  "mergeDefinitions results combined = None \<longleftrightarrow> Failure \<in> set results"
proof (induction results arbitrary: combined)
  case Nil
  show ?case by simp
next
  case (Cons r results)
  then show ?case by (cases r) auto
qed

lemma mergeDefinitions_Schemas:
  "mergeDefinitions (map Schemas ds) combined = Some (foldl (++) combined ds)"
  by (induction ds arbitrary: combined) simp_all

lemma typesFile_logged [simp]: "typesFile (this\<lparr> logged := l \<rparr>) = typesFile this"
  by (simp add: typesFile_def)

lemma foldl_map_add_later:
  "\<forall>d' \<in> set after. d' name = None \<Longrightarrow> foldl (++) combined after name = combined name"
  by (induction after arbitrary: combined) (simp_all add: map_add_def)

lemma foldl_map_add_last:
  assumes "d name = Some v" and "\<forall>d' \<in> set after. d' name = None"
  shows "foldl (++) combined (before @ d # after) name = Some v"
  using assms by (simp add: foldl_map_add_later)

lemma foldl_map_add_None:
  "foldl (++) combined ds name = None \<longleftrightarrow> combined name = None \<and> (\<forall>d \<in> set ds. d name = None)"
  by (induction ds arbitrary: combined) auto

text \<open>
  C6, as stated: a source that fails contributes an empty schema set and the definitions
  of the other sources are still in the merged map. The one \<^verbatim>\<open>try\<close> of \<open>gatherTypes\<close>
  is around \<^verbatim>\<open>Promise.all\<close> and the assignment: with one failing source the document
  gets no definitions at all, though the other source alone gives \<^verbatim>\<open>Widget\<close>.
\<close>

theorem C6_counterexample:
  "swagger_definitions (this_swagger (gatherTypes example_convert
      \<lparr> service_service = ''widgets'',
        service_typefiles = Some [''broken.d.ts'', ''second.d.ts''],
        service_functions = [], this_swagger = initial_swagger, logged = [] \<rparr>))
   = None
   \<and> swagger_definitions (this_swagger (gatherTypes example_convert
      \<lparr> service_service = ''widgets'',
        service_typefiles = Some [''second.d.ts''],
        service_functions = [], this_swagger = initial_swagger, logged = [] \<rparr>))
   = Some [''Widget'' \<mapsto> ''second'']"
  by (simp add: gatherTypes_def typesFile_def example_convert_def initial_swagger_def)

text \<open>
  C6, amended: for every list of type-definition sources, if one source fails to read or
  convert or yields invalid output, the failure is logged and the run continues:
  \<open>gatherTypes\<close> returns, with the document as it was before the call. The definitions
  are not assigned, so no source contributes to them, the successful ones included.
\<close>

theorem C6_failure_leaves_document:
  assumes "Failure \<in> set (map convertFile (typesFile this))"
  shows "this_swagger (gatherTypes convertFile this) = this_swagger this
    \<and> logged (gatherTypes convertFile this)
        = logged this @ [''this is where we gather the types into a single file'',
                         ''error getting types'']
    \<and> service_functions (gatherTypes convertFile this) = service_functions this"
proof -
  have "mergeDefinitions (map convertFile (typesFile this)) Map.empty = None"
    using assms by (simp only: mergeDefinitions_None)
  then show ?thesis by (simp add: gatherTypes_def Let_def)
qed

theorem C6_witness:
  "this_swagger (gatherTypes example_convert
      \<lparr> service_service = ''widgets'',
        service_typefiles = Some [''first.d.ts'', ''broken.d.ts'', ''second.d.ts''],
        service_functions = [], this_swagger = initial_swagger, logged = [] \<rparr>)
   = initial_swagger
   \<and> logged (gatherTypes example_convert
      \<lparr> service_service = ''widgets'',
        service_typefiles = Some [''first.d.ts'', ''broken.d.ts'', ''second.d.ts''],
        service_functions = [], this_swagger = initial_swagger, logged = [] \<rparr>)
   = [''this is where we gather the types into a single file'', ''error getting types'']"
proof -
  let ?st = "\<lparr> service_service = ''widgets'',
        service_typefiles = Some [''first.d.ts'', ''broken.d.ts'', ''second.d.ts''],
        service_functions = [], this_swagger = (initial_swagger :: string Swagger),
        logged = [] \<rparr>"
  have f: "Failure \<in> set (map example_convert (typesFile ?st))"
    by (simp add: typesFile_def example_convert_def)
  from C6_failure_leaves_document [OF f] show ?thesis by simp
qed

text \<open>
  C7: for every list of sources that all convert, taken in the order in which they are
  merged, the definitions of the document are one map, the per-source maps merged from
  left to right: a name is in it exactly when a source defines it, and a name defined by
  several sources is bound once, to the definition of the last source that defines it.
\<close>

theorem C7_last_source_wins:
  assumes "map convertFile (typesFile this) = map Schemas ds"
  shows "swagger_definitions (this_swagger (gatherTypes convertFile this))
           = Some (foldl (++) Map.empty ds)
    \<and> (\<forall>name. foldl (++) Map.empty ds name = None \<longleftrightarrow> (\<forall>d \<in> set ds. d name = None))
    \<and> (\<forall>before d after name v.
          ds = before @ d # after \<and> d name = Some v \<and> (\<forall>d' \<in> set after. d' name = None)
          \<longrightarrow> foldl (++) Map.empty ds name = Some v)"
proof (intro conjI allI impI)
  show "swagger_definitions (this_swagger (gatherTypes convertFile this))
           = Some (foldl (++) Map.empty ds)"
    using assms by (simp add: gatherTypes_def Let_def mergeDefinitions_Schemas)
next
  fix name
  show "foldl (++) Map.empty ds name = None \<longleftrightarrow> (\<forall>d \<in> set ds. d name = None)"
    by (simp add: foldl_map_add_None)
next
  fix before d after name v
  assume "ds = before @ d # after \<and> d name = Some v \<and> (\<forall>d' \<in> set after. d' name = None)"
  then show "foldl (++) Map.empty ds name = Some v"
    using foldl_map_add_last [of d name v after Map.empty before] by blast
qed

theorem C7_witness:
  "map_option (\<lambda>definitions. (definitions ''Widget'', definitions ''Gadget''))
     (swagger_definitions (this_swagger (gatherTypes example_convert
        \<lparr> service_service = ''widgets'',
          service_typefiles = Some [''first.d.ts'', ''second.d.ts''],
          service_functions = [], this_swagger = initial_swagger, logged = [] \<rparr>)))
   = Some (Some ''second'', Some ''gadget'')"
proof -
  let ?st = "\<lparr> service_service = ''widgets'',
          service_typefiles = Some [''first.d.ts'', ''second.d.ts''],
          service_functions = [], this_swagger = (initial_swagger :: string Swagger),
          logged = [] \<rparr>"
  let ?ds = "[[''Widget'' \<mapsto> ''first'', ''Gadget'' \<mapsto> ''gadget''], [''Widget'' \<mapsto> ''second'']]"
  have m: "map example_convert (typesFile ?st) = map Schemas ?ds"
    by (simp add: typesFile_def example_convert_def)
  note t = C7_last_source_wins [OF m]
  from t have d: "swagger_definitions (this_swagger (gatherTypes example_convert ?st))
           = Some (foldl (++) Map.empty ?ds)"
    by blast
  from t have "foldl (++) Map.empty ?ds ''Widget'' = Some ''second''"
    by (elim conjE allE [where x = "[[''Widget'' \<mapsto> ''first'', ''Gadget'' \<mapsto> ''gadget'']]"]) simp
  moreover have "foldl (++) Map.empty ?ds ''Gadget'' = Some ''gadget''"
    by (simp add: map_add_def)
  ultimately show ?thesis using d by simp
qed

end
